theory Spec2Isabelle
  imports Complex_Main "HOL-Library.Char_ord" "HOL-Library.List_Lexorder" "HOL-Library.Multiset"
begin

section \<open>Data model\<close>

text \<open>
  Modelled from the spec: the \<^verbatim>\<open>Book\<close> type declaration (module \<^verbatim>\<open>@/types\<close> is not among
  the sources). The fields are the ones the two pages read. \<^verbatim>\<open>rating\<close> and
  \<^verbatim>\<open>publishedYear\<close> are optional because the sort comparator guards both with
  \<^verbatim>\<open>|| 0\<close>; a rating that is \<^verbatim>\<open>NaN\<close> is falsy as well and counts as absent. A
  rating is a finite double, hence a rational number. Title, author and genre are always
  there: the filter calls \<^verbatim>\<open>toLowerCase\<close> on them unguarded. The field \<^verbatim>\<open>id\<close> is named
  \<open>book_id\<close> here.
\<close>

record book =
  book_id :: string
  title :: string
  author :: string
  genre :: string
  description :: string
  coverImage :: string
  isbn :: string
  publishedYear :: "int option"
  rating :: "rat option"

section \<open>Host string operations\<close>

text \<open>
  A string is a sequence of code units, and \<^typ>\<open>char\<close> has the code units below 256 (the
  Latin-1 range). On these, the definitions below are \<^verbatim>\<open>String.prototype.toLowerCase\<close>,
  \<^verbatim>\<open>trim\<close> and \<^verbatim>\<open>includes\<close> of the host:
  \<^item> the capitals are A to Z (65 to 90) and the Latin-1 capitals 192 to 214 and 216 to 222
    (215 is the multiplication sign), each 32 below its small letter;
  \<^item> the white space and line terminators that \<^verbatim>\<open>trim\<close> strips are TAB, LF, VT, FF, CR,
    SPACE and the no-break space (160).
\<close>

definition lowerChar :: "char \<Rightarrow> char" where
  "lowerChar c =
     (let n = (of_char c :: nat) in
      if (65 \<le> n \<and> n \<le> 90) \<or> (192 \<le> n \<and> n \<le> 214) \<or> (216 \<le> n \<and> n \<le> 222)
      then char_of (n + 32) else c)"

definition toLowerCase :: "string \<Rightarrow> string" where
  "toLowerCase s = map lowerChar s"

definition isWhiteSpace :: "char \<Rightarrow> bool" where
  "isWhiteSpace c \<longleftrightarrow> (of_char c :: nat) \<in> {9, 10, 11, 12, 13, 32, 160}"

definition trim :: "string \<Rightarrow> string" where
  "trim s = rev (dropWhile isWhiteSpace (rev (dropWhile isWhiteSpace s)))"

fun startsWith :: "string \<Rightarrow> string \<Rightarrow> bool" where
  "startsWith s [] = True"
| "startsWith [] (d # q) = False"
| "startsWith (c # s) (d # q) = (c = d \<and> startsWith s q)"

fun includesStr :: "string \<Rightarrow> string \<Rightarrow> bool" where
  "includesStr [] q = startsWith [] q"
| "includesStr (c # s) q = (startsWith (c # s) q \<or> includesStr s q)"

section \<open>Catalog page: filter, sort, paginate (Books.tsx)\<close>

definition ITEMS_PER_PAGE :: int where
  "ITEMS_PER_PAGE = 12"

subsection \<open>Filtering\<close>

text \<open>
  \<^verbatim>\<open>if (!searchQuery.trim()) return books;\<close> and then the match against
  \<^verbatim>\<open>searchQuery.toLowerCase()\<close>: the query that is matched is lower-cased, not trimmed.
\<close>

definition filteredBooks :: "book list \<Rightarrow> string \<Rightarrow> book list" where
  "filteredBooks books searchQuery =
     (if trim searchQuery = [] then books
      else let query = toLowerCase searchQuery in
        filter (\<lambda>book.
          includesStr (toLowerCase (title book)) query \<or>
          includesStr (toLowerCase (author book)) query \<or>
          includesStr (toLowerCase (genre book)) query) books)"

subsection \<open>Sorting\<close>

text \<open>
  \<^verbatim>\<open>Array.prototype.sort\<close> with a comparison function. ECMAScript requires the sort to
  be stable, so for a consistent comparison function the result is the one that stable
  insertion computes: an element goes in front of the first later element that it does not
  compare greater than.
\<close>

fun sortInsert :: "('a \<Rightarrow> 'a \<Rightarrow> rat) \<Rightarrow> 'a \<Rightarrow> 'a list \<Rightarrow> 'a list" where
  "sortInsert cmp x [] = [x]"
| "sortInsert cmp x (y # ys) =
     (if cmp x y \<le> 0 then x # y # ys else y # sortInsert cmp x ys)"

fun arraySort :: "('a \<Rightarrow> 'a \<Rightarrow> rat) \<Rightarrow> 'a list \<Rightarrow> 'a list" where
  "arraySort cmp [] = []"
| "arraySort cmp (x # xs) = sortInsert cmp x (arraySort cmp xs)"

text \<open>\<^verbatim>\<open>v || 0\<close> on an optional number: an absent value counts as 0.\<close>

definition orZero :: "'a::zero option \<Rightarrow> 'a" where
  "orZero v = (case v of None \<Rightarrow> 0 | Some x \<Rightarrow> x)"

text \<open>
  \<^verbatim>\<open>a[key]\<close> for the keys the alphabetical branch can see (the comparator handles
  \<^verbatim>\<open>rating\<close> and \<^verbatim>\<open>publishedYear\<close> before it gets there). Any other name is not a
  data field of the object; the page itself only ever sets the key to one of the four
  options of its select box.
\<close>

definition field :: "string \<Rightarrow> book \<Rightarrow> string option" where
  "field key b =
     (if key = ''id'' then Some (book_id b)
      else if key = ''title'' then Some (title b)
      else if key = ''author'' then Some (author b)
      else if key = ''genre'' then Some (genre b)
      else if key = ''description'' then Some (description b)
      else if key = ''coverImage'' then Some (coverImage b)
      else if key = ''isbn'' then Some (isbn b)
      else None)"

text \<open>\<^verbatim>\<open>String(a[key] ?? '')\<close>.\<close>

definition orEmpty :: "string option \<Rightarrow> string" where
  "orEmpty v = (case v of None \<Rightarrow> [] | Some s \<Rightarrow> s)"

text \<open>
  The comparison function handed to \<^verbatim>\<open>sort\<close>. \<^verbatim>\<open>String.prototype.localeCompare\<close>
  depends on the host's locale, so it is a parameter. The difference of two finite doubles
  has the sign of their exact difference, which is all \<^verbatim>\<open>sort\<close> looks at.
\<close>

definition compareBooks :: "(string \<Rightarrow> string \<Rightarrow> int) \<Rightarrow> string \<Rightarrow> book \<Rightarrow> book \<Rightarrow> rat" where
  "compareBooks localeCompare sortBy a b =
     (if sortBy = ''rating'' then orZero (rating b) - orZero (rating a)
      else if sortBy = ''publishedYear''
        then of_int (orZero (publishedYear b) - orZero (publishedYear a))
      else
        let valA = toLowerCase (orEmpty (field sortBy a));
            valB = toLowerCase (orEmpty (field sortBy b))
        in of_int (localeCompare valA valB))"

definition sortedBooks :: "(string \<Rightarrow> string \<Rightarrow> int) \<Rightarrow> string \<Rightarrow> book list \<Rightarrow> book list" where
  "sortedBooks localeCompare sortBy filtered =
     arraySort (compareBooks localeCompare sortBy) filtered"

subsection \<open>Pagination\<close>

text \<open>
  \<^verbatim>\<open>Math.ceil(sortedBooks.length / ITEMS_PER_PAGE)\<close>. An array length is below
  \<open>2 ^ 32\<close>, where the double quotient by 12 lies on the same side of every integer as the
  exact quotient, so the ceiling is the exact one.
\<close>

definition totalPages :: "'a list \<Rightarrow> int" where
  "totalPages sortedList = \<lceil>(of_nat (length sortedList) :: rat) / of_int ITEMS_PER_PAGE\<rceil>"

text \<open>
  \<^verbatim>\<open>Array.prototype.slice(start, end)\<close> on integers: a negative index counts from the
  end of the array, and both ends are clamped to the array.
\<close>

definition slice :: "'a list \<Rightarrow> int \<Rightarrow> int \<Rightarrow> 'a list" where
  "slice xs start end' =
     (let len = int (length xs);
          k = (if start < 0 then max (len + start) 0 else min start len);
          final = (if end' < 0 then max (len + end') 0 else min end' len);
          count = max (final - k) 0
      in take (nat count) (drop (nat k) xs))"

definition paginatedBooks :: "'a list \<Rightarrow> int \<Rightarrow> 'a list" where
  "paginatedBooks sortedList currentPage =
     (let start = (currentPage - 1) * ITEMS_PER_PAGE
      in slice sortedList start (start + ITEMS_PER_PAGE))"

text \<open>
  The sort step on arrays held by reference: the store is the list of the arrays allocated
  so far and a reference is an index into it (a reference of the program is always one of
  an allocated array). \<^verbatim>\<open>[...filteredBooks]\<close> allocates a copy, and \<^verbatim>\<open>sort\<close> sorts
  the array it is called on in place and returns that same reference.
\<close>

definition spreadCopy :: "'a list list \<Rightarrow> nat \<Rightarrow> 'a list list \<times> nat" where
  "spreadCopy store r = (store @ [store ! r], length store)"

definition sortInPlace :: "('a \<Rightarrow> 'a \<Rightarrow> rat) \<Rightarrow> 'a list list \<Rightarrow> nat \<Rightarrow> 'a list list \<times> nat" where
  "sortInPlace cmp store r = (store[r := arraySort cmp (store ! r)], r)"

definition sortedBooksRef ::
  "(string \<Rightarrow> string \<Rightarrow> int) \<Rightarrow> string \<Rightarrow> book list list \<Rightarrow> nat \<Rightarrow> book list list \<times> nat" where
  "sortedBooksRef localeCompare sortBy store filteredRef =
     (case spreadCopy store filteredRef of
        (store1, sortedRef) \<Rightarrow> sortInPlace (compareBooks localeCompare sortBy) store1 sortedRef)"

text \<open>
  What \<^verbatim>\<open>sort\<close> expects of its comparison function (ECMAScript, consistent comparator):
  comparing equal is an equivalence, and comparing less and comparing greater are
  transitive.
\<close>

definition consistentComparator :: "('a \<Rightarrow> 'a \<Rightarrow> int) \<Rightarrow> bool" where
  "consistentComparator c \<longleftrightarrow>
     (\<forall>a. c a a = 0) \<and>
     (\<forall>a b. c a b = 0 \<longrightarrow> c b a = 0) \<and>
     (\<forall>a b d. c a b = 0 \<and> c b d = 0 \<longrightarrow> c a d = 0) \<and>
     (\<forall>a b d. c a b < 0 \<and> c b d < 0 \<longrightarrow> c a d < 0) \<and>
     (\<forall>a b d. c a b > 0 \<and> c b d > 0 \<longrightarrow> c a d > 0)"

text \<open>
  One consistent comparison function, used where a concrete collation is needed: strings
  ordered by their code units.
\<close>

definition codeUnitCompare :: "string \<Rightarrow> string \<Rightarrow> int" where
  "codeUnitCompare u v = (if u < v then - 1 else if v < u then 1 else 0)"

text \<open>Spec-level notions: \<open>q\<close> occurs in \<open>s\<close> as a contiguous substring.\<close>

definition substringOf :: "string \<Rightarrow> string \<Rightarrow> bool" where
  "substringOf q s \<longleftrightarrow> (\<exists>ps ss. s = ps @ q @ ss)"

text \<open>
  The filter step as the specification words it: the query is trimmed and lower-cased
  before it is matched.
\<close>

definition filterSpec :: "book list \<Rightarrow> string \<Rightarrow> book list" where
  "filterSpec books searchQuery =
     (let query = toLowerCase (trim searchQuery) in
      filter (\<lambda>book.
        substringOf query (toLowerCase (title book)) \<or>
        substringOf query (toLowerCase (author book)) \<or>
        substringOf query (toLowerCase (genre book))) books)"

section \<open>Detail page: reviews and reading lists (BookDetail.tsx)\<close>

text \<open>
  Modelled from the spec: the \<^verbatim>\<open>ReadingList\<close> type declaration (module \<^verbatim>\<open>@/types\<close>).
  \<^verbatim>\<open>bookIds\<close> may be absent: the handler guards it with \<^verbatim>\<open>|| []\<close>. The fields
  \<^verbatim>\<open>id\<close> and \<^verbatim>\<open>name\<close> are named \<open>list_id\<close> and \<open>list_name\<close> here.
\<close>

record readingList =
  list_id :: string
  list_name :: string
  bookIds :: "string list option"

text \<open>
  Everything a handler does, in the order it does it: the state setters it calls, the
  calls to the data-access module, and the notifications. The two alerts are told apart
  by their constructor.
\<close>

datatype effect =
    SetIsUpdating bool
  | SetIsModalOpen bool
  | UpdateReadingList string "string list" string
  | AlertBookAdded
  | AlertErrorAddingBook
  | ConsoleError
  | SetIsSubmittingReview bool
  | CreateReview string string int string
  | ShowSuccess
  | SetIsReviewModalOpen bool
  | SetNewReview int string
  | LoadReviews string
  | HandleApiError

text \<open>How an awaited backend call ends.\<close>

datatype outcome = Resolved | Rejected

record detail =
  book :: "book option"
  isLoading :: bool
  isUpdating :: bool
  readingLists :: "readingList list"
  isModalOpen :: bool
  selectedListId :: string
  isReviewModalOpen :: bool
  newReviewRating :: int
  newReviewComment :: string
  isSubmittingReview :: bool
  userId :: "string option"
  trace :: "effect list"

definition emit :: "effect \<Rightarrow> detail \<Rightarrow> detail" where
  "emit e st = st\<lparr>trace := trace st @ [e]\<rparr>"

definition setIsUpdating :: "bool \<Rightarrow> detail \<Rightarrow> detail" where
  "setIsUpdating v st = emit (SetIsUpdating v) (st\<lparr>isUpdating := v\<rparr>)"

definition setIsModalOpen :: "bool \<Rightarrow> detail \<Rightarrow> detail" where
  "setIsModalOpen v st = emit (SetIsModalOpen v) (st\<lparr>isModalOpen := v\<rparr>)"

definition setIsSubmittingReview :: "bool \<Rightarrow> detail \<Rightarrow> detail" where
  "setIsSubmittingReview v st = emit (SetIsSubmittingReview v) (st\<lparr>isSubmittingReview := v\<rparr>)"

definition setIsReviewModalOpen :: "bool \<Rightarrow> detail \<Rightarrow> detail" where
  "setIsReviewModalOpen v st = emit (SetIsReviewModalOpen v) (st\<lparr>isReviewModalOpen := v\<rparr>)"

definition setNewReview :: "int \<Rightarrow> string \<Rightarrow> detail \<Rightarrow> detail" where
  "setNewReview r c st =
     emit (SetNewReview r c) (st\<lparr>newReviewRating := r, newReviewComment := c\<rparr>)"

text \<open>\<^verbatim>\<open>targetList.bookIds || []\<close>: an array, even an empty one, is truthy.\<close>

definition orNil :: "'a list option \<Rightarrow> 'a list" where
  "orNil v = (case v of None \<Rightarrow> [] | Some xs \<Rightarrow> xs)"

text \<open>\<^verbatim>\<open>!userId\<close> on \<^verbatim>\<open>string | null\<close>: null and the empty string are falsy.\<close>

definition falsy :: "string option \<Rightarrow> bool" where
  "falsy v \<longleftrightarrow> (case v of None \<Rightarrow> True | Some s \<Rightarrow> s = [])"

definition handleConfirmAdd :: "outcome \<Rightarrow> detail \<Rightarrow> detail" where
  "handleConfirmAdd res st =
     (if selectedListId st = [] then st
      else case book st of
        None \<Rightarrow> st
      | Some b \<Rightarrow>
          let st1 = setIsUpdating True st in
          (case find (\<lambda>l. list_id l = selectedListId st) (readingLists st) of
             None \<Rightarrow> setIsUpdating False st1
           | Some targetList \<Rightarrow>
               let updatedBookIds = orNil (bookIds targetList) @ [book_id b];
                   st2 = emit (UpdateReadingList (selectedListId st) updatedBookIds
                                 (list_name targetList)) st1
               in (case res of
                     Resolved \<Rightarrow>
                       setIsUpdating False (setIsModalOpen False (emit AlertBookAdded st2))
                   | Rejected \<Rightarrow>
                       setIsUpdating False (emit AlertErrorAddingBook (emit ConsoleError st2)))))"

definition handleReviewSubmit :: "outcome \<Rightarrow> detail \<Rightarrow> detail" where
  "handleReviewSubmit res st =
     (case book st of
        None \<Rightarrow> st
      | Some b \<Rightarrow>
          if falsy (userId st) then st
          else
            let st1 = setIsSubmittingReview True st;
                st2 = emit (CreateReview (book_id b) (orEmpty (userId st))
                              (newReviewRating st) (newReviewComment st)) st1
            in (case res of
                  Resolved \<Rightarrow>
                    setIsSubmittingReview False
                      (emit (LoadReviews (book_id b))
                        (setNewReview 5 []
                          (setIsReviewModalOpen False (emit ShowSuccess st2))))
                | Rejected \<Rightarrow> setIsSubmittingReview False (emit HandleApiError st2)))"

text \<open>
  The Submit Review button: it is rendered only once the book is loaded and the review
  dialog is open, it carries \<^verbatim>\<open>disabled={!newReview.comment || isSubmittingReview}\<close>, and
  a disabled button does not run its \<^verbatim>\<open>onClick\<close>.
\<close>

definition submitReviewRendered :: "detail \<Rightarrow> bool" where
  "submitReviewRendered st \<longleftrightarrow> \<not> isLoading st \<and> book st \<noteq> None \<and> isReviewModalOpen st"

definition submitReviewDisabled :: "detail \<Rightarrow> bool" where
  "submitReviewDisabled st \<longleftrightarrow> newReviewComment st = [] \<or> isSubmittingReview st"

definition clickSubmitReview :: "outcome \<Rightarrow> detail \<Rightarrow> detail" where
  "clickSubmitReview res st =
     (if submitReviewRendered st \<and> \<not> submitReviewDisabled st
      then handleReviewSubmit res st else st)"

text \<open>The calls a trace makes to the data-access module.\<close>

fun isBackendCall :: "effect \<Rightarrow> bool" where
  "isBackendCall (UpdateReadingList i ids n) = True"
| "isBackendCall (CreateReview b u r c) = True"
| "isBackendCall (LoadReviews b) = True"
| "isBackendCall e = False"

definition backendCalls :: "detail \<Rightarrow> effect list" where
  "backendCalls st = filter isBackendCall (trace st)"

section \<open>Sample data\<close>

definition hobbit :: book where
  "hobbit = \<lparr>book_id = ''b1'', title = ''The Hobbit'', author = ''J.R.R. Tolkien'',
     genre = ''Fantasy'', description = [], coverImage = [], isbn = [],
     publishedYear = Some 1937, rating = Some (47 / 10)\<rparr>"

definition dune :: book where
  "dune = \<lparr>book_id = ''b2'', title = ''Dune'', author = ''Frank Herbert'',
     genre = ''Science Fiction'', description = [], coverImage = [], isbn = [],
     publishedYear = Some 1965, rating = Some (47 / 10)\<rparr>"

definition emma :: book where
  "emma = \<lparr>book_id = ''b3'', title = ''Emma'', author = ''Jane Austen'',
     genre = ''Romance'', description = [], coverImage = [], isbn = [],
     publishedYear = None, rating = None\<rparr>"

definition cafe :: book where
  "cafe = \<lparr>book_id = ''b4'', title = [CHR ''C'', CHR ''A'', CHR ''F'', CHR 0xC9],
     author = ''Anon'', genre = ''Travel'', description = [], coverImage = [], isbn = [],
     publishedYear = Some 2001, rating = Some 3\<rparr>"

definition favourites :: readingList where
  "favourites = \<lparr>list_id = ''l1'', list_name = ''Favourites'', bookIds = Some [''b2'', ''b1'']\<rparr>"

definition wishlist :: readingList where
  "wishlist = \<lparr>list_id = ''l2'', list_name = ''Wishlist'', bookIds = None\<rparr>"

definition page0 :: detail where
  "page0 = \<lparr>book = Some hobbit, isLoading = False, isUpdating = False,
     readingLists = [favourites, wishlist], isModalOpen = True, selectedListId = ''l1'',
     isReviewModalOpen = True, newReviewRating = 5, newReviewComment = [],
     isSubmittingReview = False, userId = Some ''u1'', trace = []\<rparr>"

section \<open>The sort of the host, on any comparison function\<close>

lemma length_sortInsert: "length (sortInsert cmp x ys) = Suc (length ys)"
  by (induction ys) simp_all

lemma length_arraySort: "length (arraySort cmp xs) = length xs"
  by (induction xs) (simp_all add: length_sortInsert)

lemma set_sortInsert: "set (sortInsert cmp x ys) = insert x (set ys)"
  by (induction ys) auto

lemma set_arraySort: "set (arraySort cmp xs) = set xs"
  by (induction xs) (simp_all add: set_sortInsert)

lemma mset_sortInsert: "mset (sortInsert cmp x ys) = add_mset x (mset ys)"
  by (induction ys) simp_all

lemma mset_arraySort: "mset (arraySort cmp xs) = mset xs"
  by (induction xs) (simp_all add: mset_sortInsert)

lemma mset_sortedBooks: "mset (sortedBooks lc sortBy xs) = mset xs"
  by (simp add: sortedBooks_def mset_arraySort)

lemma sorted_sortInsert:
  assumes total: "\<And>a b. cmp a b \<le> 0 \<or> cmp b a \<le> 0"
    and trans: "\<And>a b d. cmp a b \<le> 0 \<Longrightarrow> cmp b d \<le> 0 \<Longrightarrow> cmp a d \<le> 0"
    and ys: "sorted_wrt (\<lambda>a b. cmp a b \<le> 0) ys"
  shows "sorted_wrt (\<lambda>a b. cmp a b \<le> 0) (sortInsert cmp x ys)"
  using ys
proof (induction ys)
  case Nil
  show ?case by simp
next
  case (Cons y ys)
  show ?case
  proof (cases "cmp x y \<le> 0")
    case True
    with Cons.prems trans show ?thesis by auto
  next
    case False
    with total have "cmp y x \<le> 0" by blast
    with False Cons show ?thesis by (auto simp: set_sortInsert)
  qed
qed

lemma sorted_arraySort:
  assumes total: "\<And>a b. cmp a b \<le> 0 \<or> cmp b a \<le> 0"
    and trans: "\<And>a b d. cmp a b \<le> 0 \<Longrightarrow> cmp b d \<le> 0 \<Longrightarrow> cmp a d \<le> 0"
  shows "sorted_wrt (\<lambda>a b. cmp a b \<le> 0) (arraySort cmp xs)"
proof (induction xs)
  case Nil
  show ?case by simp
next
  case (Cons x xs)
  from sorted_sortInsert [of cmp, OF total trans Cons.IH]
  show ?case by simp
qed

lemma filter_sortInsert:
  assumes skip: "\<And>y. cmp a x = 0 \<Longrightarrow> cmp x y > 0 \<Longrightarrow> cmp a y \<noteq> 0"
  shows "filter (\<lambda>y. cmp a y = 0) (sortInsert cmp x ys) =
         (if cmp a x = 0 then x # filter (\<lambda>y. cmp a y = 0) ys else filter (\<lambda>y. cmp a y = 0) ys)"
  using skip by (induction ys) (auto simp: not_le)

lemma filter_arraySort:
  assumes skip: "\<And>x y. cmp a x = 0 \<Longrightarrow> cmp x y > 0 \<Longrightarrow> cmp a y \<noteq> 0"
  shows "filter (\<lambda>y. cmp a y = 0) (arraySort cmp xs) = filter (\<lambda>y. cmp a y = 0) xs"
  by (induction xs) (simp_all add: filter_sortInsert skip)

lemma compareBooks_skip:
  assumes "consistentComparator lc"
    and "compareBooks lc k a x = 0" and "compareBooks lc k x y > 0"
  shows "compareBooks lc k a y \<noteq> 0"
proof (cases "k = ''rating'' \<or> k = ''publishedYear''")
  case True
  with assms(2,3) show ?thesis by (auto simp: compareBooks_def split: if_splits)
next
  case False
  define va where "va = toLowerCase (orEmpty (field k a))"
  define vx where "vx = toLowerCase (orEmpty (field k x))"
  define vy where "vy = toLowerCase (orEmpty (field k y))"
  from False assms(2) have ax: "lc va vx = 0" by (simp add: compareBooks_def va_def vx_def)
  from False assms(3) have xy: "lc vx vy > 0" by (simp add: compareBooks_def vy_def vx_def)
  have "lc va vy \<noteq> 0"
  proof
    assume "lc va vy = 0"
    moreover from ax assms(1) have "lc vx va = 0" unfolding consistentComparator_def by blast
    ultimately have "lc vx vy = 0" using assms(1) unfolding consistentComparator_def by blast
    with xy show False by simp
  qed
  with False show ?thesis by (simp add: compareBooks_def va_def vy_def)
qed

lemma startsWith_iff: "startsWith s q \<longleftrightarrow> (\<exists>ss. s = q @ ss)"
  by (induction s q rule: startsWith.induct) auto

lemma includesStr_iff: "includesStr s q \<longleftrightarrow> substringOf q s"
proof (induction s)
  case Nil
  show ?case by (auto simp: substringOf_def startsWith_iff)
next
  case (Cons c s)
  show ?case
  proof
    assume "includesStr (c # s) q"
    then consider "startsWith (c # s) q" | "includesStr s q" by auto
    then show "substringOf q (c # s)"
    proof cases
      case 1
      then obtain ss where "c # s = [] @ q @ ss" by (auto simp: startsWith_iff)
      then show ?thesis unfolding substringOf_def by blast
    next
      case 2
      with Cons obtain ps ss where "s = ps @ q @ ss" by (auto simp: substringOf_def)
      then have "c # s = (c # ps) @ q @ ss" by simp
      then show ?thesis unfolding substringOf_def by blast
    qed
  next
    assume "substringOf q (c # s)"
    then obtain ps ss where eq: "c # s = ps @ q @ ss" by (auto simp: substringOf_def)
    show "includesStr (c # s) q"
    proof (cases ps)
      case Nil
      with eq have "startsWith (c # s) q" by (auto simp: startsWith_iff)
      then show ?thesis by simp
    next
      case (Cons p ps')
      with eq have "s = ps' @ q @ ss" by simp
      then have "substringOf q s" unfolding substringOf_def by blast
      with Cons.IH show ?thesis by simp
    qed
  qed
qed

lemma consistent_codeUnitCompare: "consistentComparator codeUnitCompare"
  unfolding consistentComparator_def codeUnitCompare_def
  by (auto split: if_splits)


section \<open>Page arithmetic\<close>

lemma totalPages_div: "totalPages xs = (int (length xs) + 11) div 12"
  unfolding totalPages_def ITEMS_PER_PAGE_def by linarith

lemma slice_nonneg:
  assumes "0 \<le> a" "a \<le> b"
  shows "slice xs a b = take (nat (b - a)) (drop (nat a) xs)"
proof -
  have len: "nat (int (length xs) - a) = length xs - nat a" using assms(1) by linarith
  show ?thesis
  proof (cases "b \<le> int (length xs)")
    case True
    with assms show ?thesis by (simp add: slice_def Let_def min_def max_def)
  next
    case False
    show ?thesis
    proof (cases "a \<le> int (length xs)")
      case True
      from False assms have "length xs - nat a \<le> nat (b - a)" by linarith
      with True False assms len show ?thesis
        by (simp add: slice_def Let_def min_def max_def)
    next
      case A: False
      with False assms show ?thesis by (simp add: slice_def Let_def min_def max_def)
    qed
  qed
qed

lemma paginatedBooks_page:
  assumes "1 \<le> p"
  shows "paginatedBooks xs p = take 12 (drop (12 * nat (p - 1)) xs)"
proof -
  have "nat ((p - 1) * 12) = 12 * nat (p - 1)" using assms by (simp add: nat_mult_distrib)
  with assms show ?thesis
    by (simp add: paginatedBooks_def ITEMS_PER_PAGE_def Let_def slice_nonneg)
qed

lemma take_drop_nths: "take m (drop a xs) = nths xs {a..<a + m}"
proof -
  have "take m (drop a xs) = nths (drop a xs) {..<m}" by simp
  also have "\<dots> = nths xs ((+) a ` {..<m})" by (rule nths_drop)
  also have "(+) a ` {..<m} = {a..<a + m}"
  proof (rule set_eqI)
    fix i
    show "i \<in> (+) a ` {..<m} \<longleftrightarrow> i \<in> {a..<a + m}"
    proof
      assume "i \<in> (+) a ` {..<m}"
      then show "i \<in> {a..<a + m}" by auto
    next
      assume "i \<in> {a..<a + m}"
      then have "i = a + (i - a)" "i - a \<in> {..<m}" by auto
      then show "i \<in> (+) a ` {..<m}" by (rule image_eqI)
    qed
  qed
  finally show ?thesis .
qed

lemma concat_pages: "concat (map (paginatedBooks xs) [1..int k]) = take (12 * k) xs"
proof (induction k)
  case 0
  show ?case by simp
next
  case (Suc k)
  have "[1..int (Suc k)] = [1..int k] @ [int k + 1]"
    by (simp add: upto_rec2 add.commute)
  moreover have "paginatedBooks xs (int k + 1) = take 12 (drop (12 * k) xs)"
    by (simp add: paginatedBooks_page)
  moreover have "take (12 * k) xs @ take 12 (drop (12 * k) xs) = take (12 * Suc k) xs"
    by (simp add: take_add [symmetric] add.commute)
  ultimately show ?case using Suc.IH by simp
qed

lemma paginatedBooks_empty_iff:
  "paginatedBooks xs p = [] \<longleftrightarrow>
     (if p < 0 then int (length xs) \<le> 12 * (- p) else p = 0 \<or> int (length xs) \<le> 12 * (p - 1))"
  by (auto simp: paginatedBooks_def slice_def ITEMS_PER_PAGE_def Let_def min_def max_def)

lemma paginatedBooks_negative:
  assumes "p < 0"
  shows "paginatedBooks xs p =
      nths xs {nat (int (length xs) + 12 * p - 12) ..< nat (int (length xs) + 12 * p)}"
proof -
  let ?n = "int (length xs)"
  let ?k = "nat (?n + 12 * p - 12)"
  have "paginatedBooks xs p =
      take (nat (max (max (?n + 12 * p) 0 - max (?n + 12 * p - 12) 0) 0))
        (drop (nat (max (?n + 12 * p - 12) 0)) xs)"
    using assms
    by (simp add: paginatedBooks_def slice_def ITEMS_PER_PAGE_def Let_def algebra_simps)
  also have "nat (max (?n + 12 * p - 12) 0) = ?k" by simp
  also have "nat (max (max (?n + 12 * p) 0 - max (?n + 12 * p - 12) 0) 0) =
      nat (?n + 12 * p) - ?k" by linarith
  also have "take (nat (?n + 12 * p) - ?k) (drop ?k xs) = nths xs {?k ..< ?k + (nat (?n + 12 * p) - ?k)}"
    by (rule take_drop_nths)
  also have "?k + (nat (?n + 12 * p) - ?k) = nat (?n + 12 * p)" by linarith
  finally show ?thesis .
qed

section \<open>The catalog pipeline\<close>

lemma length_sortedBooks: "length (sortedBooks lc sortBy xs) = length xs"
  by (simp add: sortedBooks_def length_arraySort)

text \<open>
  Claim C1, as the code has it. For every raw collection, query and sort key, the total
  page count of the pipeline is the ceiling of the filtered count over 12. That is 0, not
  1, when nothing matches, and it is \<open>max 1\<close> of that ceiling as soon as one book matches.
\<close>

theorem totalPages_pipeline:
  "totalPages (sortedBooks lc sortBy (filteredBooks books q)) =
     \<lceil>(of_nat (length (filteredBooks books q)) :: rat) / 12\<rceil> \<and>
   totalPages (sortedBooks lc sortBy (filteredBooks books q)) =
     (if filteredBooks books q = [] then 0
      else max 1 \<lceil>(of_nat (length (filteredBooks books q)) :: rat) / 12\<rceil>)"
proof -
  let ?n = "length (filteredBooks books q)"
  have eq: "totalPages (sortedBooks lc sortBy (filteredBooks books q)) = \<lceil>(of_nat ?n :: rat) / 12\<rceil>"
    by (simp add: totalPages_def ITEMS_PER_PAGE_def length_sortedBooks)
  have "0 < ?n \<Longrightarrow> 1 \<le> \<lceil>(of_nat ?n :: rat) / 12\<rceil>" by linarith
  then have "\<lceil>(of_nat ?n :: rat) / 12\<rceil> =
     (if filteredBooks books q = [] then 0 else max 1 \<lceil>(of_nat ?n :: rat) / 12\<rceil>)"
    by (cases "filteredBooks books q") simp_all
  with eq show ?thesis by simp
qed

text \<open>The same on sample data.\<close>

theorem totalPages_pipeline_witness:
  "totalPages (sortedBooks codeUnitCompare ''title'' (filteredBooks [hobbit, dune, emma] ''e'')) = 1 \<and>
   totalPages (sortedBooks codeUnitCompare ''title'' (filteredBooks [hobbit, dune, emma] ''zz'')) = 0"
proof -
  have a: "filteredBooks [hobbit, dune, emma] ''e'' = [hobbit, dune, emma]" by code_simp
  have b: "filteredBooks [hobbit, dune, emma] ''zz'' = []" by code_simp
  from totalPages_pipeline [of codeUnitCompare "''title''" "[hobbit, dune, emma]" "''e''"]
       totalPages_pipeline [of codeUnitCompare "''title''" "[hobbit, dune, emma]" "''zz''"]
  show ?thesis by (simp add: a b)
qed

text \<open>
  Claim C1 as stated fails when nothing matches: the pipeline reports 0 pages where the
  claim's formula gives 1.
\<close>

theorem totalPages_no_matches:
  "totalPages (sortedBooks codeUnitCompare ''title'' (filteredBooks [hobbit, dune] ''zz'')) = 0 \<and>
   max 1 \<lceil>(of_nat (length (filteredBooks [hobbit, dune] ''zz'')) :: rat) / 12\<rceil> = 1"
  by code_simp

text \<open>
  Claim C2, as the code has it. When the trimmed query is empty the filter step returns
  its input unchanged. Otherwise it returns exactly the subsequence of the books whose
  lower-cased title, author or genre contains the lower-cased query as a substring, and
  that query is the one typed, with its leading and trailing white space.
\<close>

theorem filteredBooks_matches:
  "filteredBooks books q =
     (if trim q = [] then books
      else filter (\<lambda>b.
        substringOf (toLowerCase q) (toLowerCase (title b)) \<or>
        substringOf (toLowerCase q) (toLowerCase (author b)) \<or>
        substringOf (toLowerCase q) (toLowerCase (genre b))) books)"
  by (simp add: filteredBooks_def Let_def includesStr_iff)

text \<open>The same on sample data.\<close>

theorem filteredBooks_matches_witness:
  "filteredBooks [hobbit, dune] ''TOLK'' = [hobbit] \<and>
   filteredBooks [hobbit, dune] ''  '' = [hobbit, dune] \<and>
   filteredBooks [hobbit, dune] [CHR 0xA0] = [hobbit, dune] \<and>
   filteredBooks [dune, cafe] [CHR 0xE9] = [cafe]"
proof -
  have t: "trim ''TOLK'' \<noteq> []" "trim ''  '' = []" "trim [CHR 0xA0] = []" "trim [CHR 0xE9] \<noteq> []"
    by code_simp+
  have h: "substringOf (toLowerCase ''TOLK'') (toLowerCase (author hobbit))"
    unfolding includesStr_iff [symmetric] by code_simp
  have d: "\<not> substringOf (toLowerCase ''TOLK'') (toLowerCase (title dune))"
    "\<not> substringOf (toLowerCase ''TOLK'') (toLowerCase (author dune))"
    "\<not> substringOf (toLowerCase ''TOLK'') (toLowerCase (genre dune))"
    unfolding includesStr_iff [symmetric] by code_simp+
  have c: "substringOf (toLowerCase [CHR 0xE9]) (toLowerCase (title cafe))"
    unfolding includesStr_iff [symmetric] by code_simp
  have e: "\<not> substringOf (toLowerCase [CHR 0xE9]) (toLowerCase (title dune))"
    "\<not> substringOf (toLowerCase [CHR 0xE9]) (toLowerCase (author dune))"
    "\<not> substringOf (toLowerCase [CHR 0xE9]) (toLowerCase (genre dune))"
    unfolding includesStr_iff [symmetric] by code_simp+
  from filteredBooks_matches [of "[hobbit, dune]" "''TOLK''"]
       filteredBooks_matches [of "[hobbit, dune]" "''  ''"]
       filteredBooks_matches [of "[hobbit, dune]" "[CHR 0xA0]"]
       filteredBooks_matches [of "[dune, cafe]" "[CHR 0xE9]"] t h d c e
  show ?thesis by simp
qed

text \<open>
  Claim C2 as stated fails for a query with white space around a word: for the query
  \<^verbatim>\<open>"tolkien "\<close> the code keeps no book, and the filter of the specification keeps
  the book by Tolkien.
\<close>

theorem filteredBooks_untrimmed_query:
  "filteredBooks [hobbit, dune] ''tolkien '' = [] \<and>
   filterSpec [hobbit, dune] ''tolkien '' = [hobbit]"
proof
  show "filteredBooks [hobbit, dune] ''tolkien '' = []" by code_simp
  show "filterSpec [hobbit, dune] ''tolkien '' = [hobbit]"
    unfolding filterSpec_def includesStr_iff [symmetric] by code_simp
qed

lemma sorted_by_rating:
  "sorted_wrt (\<lambda>a b. orZero (rating b) \<le> orZero (rating a)) (sortedBooks lc ''rating'' xs)"
proof -
  have "sorted_wrt (\<lambda>a b. compareBooks lc ''rating'' a b \<le> 0)
          (arraySort (compareBooks lc ''rating'') xs)"
    by (rule sorted_arraySort) (auto simp: compareBooks_def)
  then show ?thesis by (simp add: sortedBooks_def compareBooks_def)
qed

lemma sorted_by_year:
  "sorted_wrt (\<lambda>a b. orZero (publishedYear b) \<le> orZero (publishedYear a))
     (sortedBooks lc ''publishedYear'' xs)"
proof -
  have "sorted_wrt (\<lambda>a b. compareBooks lc ''publishedYear'' a b \<le> 0)
          (arraySort (compareBooks lc ''publishedYear'') xs)"
    by (rule sorted_arraySort) (auto simp: compareBooks_def)
  then show ?thesis by (simp add: sortedBooks_def compareBooks_def)
qed

text \<open>
  Claim C5. For every sequence, sorting by \<^verbatim>\<open>rating\<close> gives a rearrangement of that
  sequence (the same books, each as often as before) whose ratings never increase, and
  sorting by \<^verbatim>\<open>publishedYear\<close> a rearrangement whose years never increase, an absent
  rating or year counting as 0.
\<close>

theorem sortedBooks_numeric_descending:
  "mset (sortedBooks lc ''rating'' xs) = mset xs \<and>
   sorted_wrt (\<lambda>a b. orZero (rating b) \<le> orZero (rating a)) (sortedBooks lc ''rating'' xs) \<and>
   mset (sortedBooks lc ''publishedYear'' xs) = mset xs \<and>
   sorted_wrt (\<lambda>a b. orZero (publishedYear b) \<le> orZero (publishedYear a))
     (sortedBooks lc ''publishedYear'' xs)"
  using sorted_by_rating sorted_by_year mset_sortedBooks by blast

text \<open>The same on sample data.\<close>

theorem sortedBooks_numeric_descending_witness:
  "sortedBooks codeUnitCompare ''rating'' [emma, hobbit, dune] = [hobbit, dune, emma] \<and>
   sortedBooks codeUnitCompare ''publishedYear'' [emma, hobbit, dune] = [dune, hobbit, emma] \<and>
   sorted_wrt (\<lambda>a b. orZero (rating b) \<le> orZero (rating a)) [hobbit, dune, emma] \<and>
   sorted_wrt (\<lambda>a b. orZero (publishedYear b) \<le> orZero (publishedYear a)) [dune, hobbit, emma]"
proof -
  have a: "sortedBooks codeUnitCompare ''rating'' [emma, hobbit, dune] = [hobbit, dune, emma]"
    by code_simp
  have b: "sortedBooks codeUnitCompare ''publishedYear'' [emma, hobbit, dune] = [dune, hobbit, emma]"
    by code_simp
  from sortedBooks_numeric_descending [of codeUnitCompare "[emma, hobbit, dune]"]
  show ?thesis by (simp only: a b simp_thms)
qed

lemma sortedBooksRef_eq:
  "sortedBooksRef lc sortBy store r =
     ((store @ [store ! r])[length store := sortedBooks lc sortBy ((store @ [store ! r]) ! length store)],
      length store)"
  by (simp add: sortedBooksRef_def spreadCopy_def sortInPlace_def sortedBooks_def)

lemma sortedBooks_stable:
  assumes "consistentComparator lc"
  shows "filter (\<lambda>x. compareBooks lc sortBy a x = 0) (sortedBooks lc sortBy xs) =
         filter (\<lambda>x. compareBooks lc sortBy a x = 0) xs"
  unfolding sortedBooks_def
  by (rule filter_arraySort) (rule compareBooks_skip [OF assms])

text \<open>
  Claim C6. The sort step sorts a fresh copy: the array it returns is a new one, the input
  array and every other array allocated before are as they were, and the new array holds
  the sorted input. The sort is stable: for every book, the books that compare equal to it
  come out in the order they went in. This is for every sort key, \<^verbatim>\<open>localeCompare\<close>
  being a consistent comparison function.
\<close>

theorem sortedBooks_copy_and_stable:
  assumes "consistentComparator lc" and "r < length store"
  shows "(case sortedBooksRef lc sortBy store r of
            (store', r') \<Rightarrow>
              r' \<noteq> r \<and> store' ! r = store ! r \<and> take (length store) store' = store \<and>
              store' ! r' = sortedBooks lc sortBy (store ! r)) \<and>
         filter (\<lambda>x. compareBooks lc sortBy a x = 0) (sortedBooks lc sortBy xs) =
         filter (\<lambda>x. compareBooks lc sortBy a x = 0) xs"
proof
  from assms(2) show "case sortedBooksRef lc sortBy store r of
            (store', r') \<Rightarrow>
              r' \<noteq> r \<and> store' ! r = store ! r \<and> take (length store) store' = store \<and>
              store' ! r' = sortedBooks lc sortBy (store ! r)"
    by (simp add: sortedBooksRef_eq nth_append)
  show "filter (\<lambda>x. compareBooks lc sortBy a x = 0) (sortedBooks lc sortBy xs) =
         filter (\<lambda>x. compareBooks lc sortBy a x = 0) xs"
    by (rule sortedBooks_stable [OF assms(1)])
qed

text \<open>The same on sample data.\<close>

theorem sortedBooks_copy_and_stable_witness:
  "consistentComparator codeUnitCompare \<and> (0::nat) < length [[emma, hobbit, dune]] \<and>
   sortedBooksRef codeUnitCompare ''rating'' [[emma, hobbit, dune]] 0 =
     ([[emma, hobbit, dune], [hobbit, dune, emma]], 1) \<and>
   filter (\<lambda>x. compareBooks codeUnitCompare ''rating'' hobbit x = 0)
     (sortedBooks codeUnitCompare ''rating'' [emma, dune, hobbit]) = [dune, hobbit]"
proof -
  have h1: "consistentComparator codeUnitCompare" by (rule consistent_codeUnitCompare)
  have h2: "(0::nat) < length [[emma, hobbit, dune]]" by simp
  have ref: "sortedBooksRef codeUnitCompare ''rating'' [[emma, hobbit, dune]] 0 =
     ([[emma, hobbit, dune], [hobbit, dune, emma]], 1)" by code_simp
  have flt: "filter (\<lambda>x. compareBooks codeUnitCompare ''rating'' hobbit x = 0) [emma, dune, hobbit]
     = [dune, hobbit]" by code_simp
  from sortedBooks_copy_and_stable [OF h1 h2, of "''rating''" hobbit "[emma, dune, hobbit]"] h1 h2 ref flt
  show ?thesis by simp
qed

text \<open>
  Claim C7. For a page number \<open>p\<close> from 1 on, the page slice is exactly the elements at the
  indices from \<open>(p - 1) * 12\<close> up to, not including, \<open>p * 12\<close>; and the slices of the pages
  1 to \<open>totalPages\<close>, one after the other, are the whole sequence, each item once.
\<close>

theorem pages_partition:
  "(1 \<le> p \<longrightarrow> paginatedBooks xs p = nths xs {nat ((p - 1) * 12) ..< nat (p * 12)}) \<and>
   concat (map (paginatedBooks xs) [1..totalPages xs]) = xs"
proof
  show "1 \<le> p \<longrightarrow> paginatedBooks xs p = nths xs {nat ((p - 1) * 12) ..< nat (p * 12)}"
  proof
    assume p: "1 \<le> p"
    have lo: "nat ((p - 1) * 12) = 12 * nat (p - 1)" using p by (simp add: nat_mult_distrib)
    have hi: "nat (p * 12) = 12 * nat (p - 1) + 12" using p by linarith
    show "paginatedBooks xs p = nths xs {nat ((p - 1) * 12) ..< nat (p * 12)}"
      unfolding lo hi paginatedBooks_page [OF p] by (rule take_drop_nths)
  qed
  have "0 \<le> totalPages xs" by (simp add: totalPages_div)
  then have "concat (map (paginatedBooks xs) [1..totalPages xs]) =
             take (12 * nat (totalPages xs)) xs"
    using concat_pages [of xs "nat (totalPages xs)"] by simp
  moreover have "length xs \<le> 12 * nat (totalPages xs)"
    unfolding totalPages_div by linarith
  ultimately show "concat (map (paginatedBooks xs) [1..totalPages xs]) = xs" by simp
qed

text \<open>The same on sample data.\<close>

theorem pages_partition_witness:
  "(1::int) \<le> 2 \<and>
   paginatedBooks [1 ..< 15 :: nat] 2 = [13, 14] \<and>
   nths [1 ..< 15 :: nat] {nat ((2 - 1) * 12) ..< nat (2 * 12)} = [13, 14] \<and>
   totalPages [1 ..< 15 :: nat] = 2 \<and>
   paginatedBooks [1 ..< 15 :: nat] 1 @ paginatedBooks [1 ..< 15 :: nat] 2 = [1 ..< 15]"
proof -
  note part = pages_partition [of 2 "[1 ..< 15 :: nat]"]
  have tp: "totalPages [1 ..< 15 :: nat] = 2" by code_simp
  have up: "[1..2::int] = [1, 2]" by code_simp
  have p2: "paginatedBooks [1 ..< 15 :: nat] 2 = [13, 14]" by code_simp
  from part have "paginatedBooks [1 ..< 15 :: nat] 2 =
      nths [1 ..< 15 :: nat] {nat ((2 - 1) * 12) ..< nat (2 * 12)}"
    by simp
  then have n: "nths [1 ..< 15 :: nat] {nat ((2 - 1) * 12) ..< nat (2 * 12)} = [13, 14]"
    by (simp only: p2)
  from part have "concat (map (paginatedBooks [1 ..< 15 :: nat]) [1..totalPages [1 ..< 15 :: nat]])
      = [1 ..< 15]"
    by (rule conjunct2)
  then have c: "paginatedBooks [1 ..< 15 :: nat] 1 @ paginatedBooks [1 ..< 15 :: nat] 2 = [1 ..< 15]"
    unfolding tp up by simp
  from tp p2 n c show ?thesis by simp
qed

text \<open>
  Claim C8, as the code has it. The paginate step is defined for every integer page number
  and fails for none. For page 0 and for every page number above \<open>totalPages\<close> the slice
  is empty. For a negative page number \<open>p\<close> and \<open>n\<close> items the slice is the items at the
  indices from \<open>n + 12 * p - 12\<close> up to, not including, \<open>n + 12 * p\<close> (none where these are
  negative): it is empty exactly when \<open>n\<close> is at most \<open>12 * (- p)\<close>.
\<close>

theorem paginatedBooks_out_of_range:
  assumes "p < 1 \<or> totalPages xs < p"
  shows "(paginatedBooks xs p = [] \<longleftrightarrow> (0 \<le> p \<or> int (length xs) \<le> 12 * (- p))) \<and>
         (p < 0 \<longrightarrow> paginatedBooks xs p =
            nths xs {nat (int (length xs) + 12 * p - 12) ..< nat (int (length xs) + 12 * p)})"
proof
  show "paginatedBooks xs p = [] \<longleftrightarrow> (0 \<le> p \<or> int (length xs) \<le> 12 * (- p))"
  proof (cases "p < 0")
    case True
    then show ?thesis by (simp add: paginatedBooks_empty_iff)
  next
    case False
    show ?thesis
    proof (cases "p = 0")
      case True
      then show ?thesis by (simp add: paginatedBooks_empty_iff)
    next
      case nz: False
      with False assms have "(int (length xs) + 11) div 12 < p" by (simp add: totalPages_div)
      then have "int (length xs) \<le> 12 * (p - 1)" by presburger
      with False nz show ?thesis by (simp add: paginatedBooks_empty_iff)
    qed
  qed
  show "p < 0 \<longrightarrow> paginatedBooks xs p =
            nths xs {nat (int (length xs) + 12 * p - 12) ..< nat (int (length xs) + 12 * p)}"
    by (simp add: paginatedBooks_negative)
qed

text \<open>The same on sample data.\<close>

theorem paginatedBooks_out_of_range_witness:
  "((3::int) < 1 \<or> totalPages (replicate 13 hobbit) < 3) \<and>
   paginatedBooks (replicate 13 hobbit) 3 = [] \<and>
   ((- 2 ::int) < 1 \<or> totalPages (replicate 13 hobbit) < - 2) \<and>
   paginatedBooks (replicate 13 hobbit) (- 2) = [] \<and>
   ((- 1 ::int) < 1 \<or> totalPages [1 ..< 31 :: nat] < - 1) \<and> (- 1 :: int) < 0 \<and>
   paginatedBooks [1 ..< 31 :: nat] (- 1) = [7 ..< 19] \<and>
   nths [1 ..< 31 :: nat] {nat (int (length [1 ..< 31 :: nat]) + 12 * (- 1) - 12) ..<
                           nat (int (length [1 ..< 31 :: nat]) + 12 * (- 1))} = [7 ..< 19]"
proof -
  have tp: "totalPages (replicate 13 hobbit) = 2" by (simp add: totalPages_div)
  have h1: "(3::int) < 1 \<or> totalPages (replicate 13 hobbit) < 3" by (simp add: tp)
  have h2: "(- 2 ::int) < 1 \<or> totalPages (replicate 13 hobbit) < - 2" by simp
  have h3: "(- 1 ::int) < 1 \<or> totalPages [1 ..< 31 :: nat] < - 1" by simp
  have pg: "paginatedBooks [1 ..< 31 :: nat] (- 1) = [7 ..< 19]" by code_simp
  from paginatedBooks_out_of_range [OF h3] have
    "paginatedBooks [1 ..< 31 :: nat] (- 1) =
       nths [1 ..< 31 :: nat] {nat (int (length [1 ..< 31 :: nat]) + 12 * (- 1) - 12) ..<
                               nat (int (length [1 ..< 31 :: nat]) + 12 * (- 1))}"
    by simp
  then have n: "nths [1 ..< 31 :: nat] {nat (int (length [1 ..< 31 :: nat]) + 12 * (- 1) - 12) ..<
                           nat (int (length [1 ..< 31 :: nat]) + 12 * (- 1))} = [7 ..< 19]"
    by (simp only: pg)
  from paginatedBooks_out_of_range [OF h1] paginatedBooks_out_of_range [OF h2] h1 h2 h3 pg n
  show ?thesis by simp
qed

text \<open>
  Claim C8 as stated fails for a negative page number: \<^verbatim>\<open>slice\<close> counts a negative
  index from the end of the array, so page -1 of 13 books is not empty.
\<close>

theorem paginatedBooks_negative_page:
  "sortedBooks codeUnitCompare ''title'' (filteredBooks (replicate 13 hobbit) []) = replicate 13 hobbit \<and>
   totalPages (replicate 13 hobbit) = 2 \<and>
   paginatedBooks (replicate 13 hobbit) (- 1) = [hobbit]"
  by code_simp

section \<open>The detail page\<close>

lemma handleConfirmAdd_found:
  assumes "selectedListId st \<noteq> []" and "book st = Some b"
    and "find (\<lambda>l. list_id l = selectedListId st) (readingLists st) = Some l"
  shows "trace (handleConfirmAdd res st) =
           trace st @
           [SetIsUpdating True,
            UpdateReadingList (selectedListId st) (orNil (bookIds l) @ [book_id b]) (list_name l)] @
           (case res of
              Resolved \<Rightarrow> [AlertBookAdded, SetIsModalOpen False, SetIsUpdating False]
            | Rejected \<Rightarrow> [ConsoleError, AlertErrorAddingBook, SetIsUpdating False])"
  using assms
  by (cases res)
     (simp_all add: handleConfirmAdd_def Let_def emit_def setIsUpdating_def setIsModalOpen_def)

lemma handleConfirmAdd_calls:
  assumes "selectedListId st \<noteq> []" and "book st = Some b"
    and "find (\<lambda>l. list_id l = selectedListId st) (readingLists st) = Some l"
  shows "backendCalls (handleConfirmAdd res st) =
           backendCalls st @
           [UpdateReadingList (selectedListId st) (orNil (bookIds l) @ [book_id b]) (list_name l)]"
  unfolding backendCalls_def handleConfirmAdd_found [OF assms]
  by (cases res) simp_all

lemma handleConfirmAdd_not_found:
  assumes "find (\<lambda>l. list_id l = selectedListId st) (readingLists st) = None"
  shows "handleConfirmAdd res st =
           (if selectedListId st = [] \<or> book st = None then st
            else st\<lparr>isUpdating := False,
                    trace := trace st @ [SetIsUpdating True, SetIsUpdating False]\<rparr>)"
  using assms
  by (cases "book st") (simp_all add: handleConfirmAdd_def Let_def emit_def setIsUpdating_def)



text \<open>
  Claim C9. If no loaded reading list has the selected identifier, the confirm-add action
  makes no backend call and leaves the reading lists and the dialog as they are: either it
  does nothing at all (no selection, or no book), or all it does is set \<^verbatim>\<open>isUpdating\<close>
  to true and back to false.
\<close>

theorem confirmAdd_unknown_list:
  assumes "find (\<lambda>l. list_id l = selectedListId st) (readingLists st) = None"
  shows "backendCalls (handleConfirmAdd res st) = backendCalls st \<and>
         readingLists (handleConfirmAdd res st) = readingLists st \<and>
         isModalOpen (handleConfirmAdd res st) = isModalOpen st \<and>
         handleConfirmAdd res st =
           (if selectedListId st = [] \<or> book st = None then st
            else st\<lparr>isUpdating := False,
                    trace := trace st @ [SetIsUpdating True, SetIsUpdating False]\<rparr>)"
  unfolding handleConfirmAdd_not_found [OF assms]
  by (simp add: backendCalls_def)

text \<open>The same on sample data.\<close>

theorem confirmAdd_unknown_list_witness:
  "find (\<lambda>l. list_id l = selectedListId (page0\<lparr>selectedListId := ''l9''\<rparr>))
        (readingLists (page0\<lparr>selectedListId := ''l9''\<rparr>)) = None \<and>
   backendCalls (handleConfirmAdd Resolved (page0\<lparr>selectedListId := ''l9''\<rparr>)) = [] \<and>
   handleConfirmAdd Resolved (page0\<lparr>selectedListId := ''l9''\<rparr>) =
     page0\<lparr>selectedListId := ''l9'', trace := [SetIsUpdating True, SetIsUpdating False]\<rparr>"
proof -
  have h: "find (\<lambda>l. list_id l = selectedListId (page0\<lparr>selectedListId := ''l9''\<rparr>))
        (readingLists (page0\<lparr>selectedListId := ''l9''\<rparr>)) = None"
    by (simp add: page0_def favourites_def wishlist_def)
  from confirmAdd_unknown_list [OF h, of Resolved] h show ?thesis
    by (simp add: page0_def backendCalls_def)
qed

text \<open>
  Claim C10. When the target list has no \<^verbatim>\<open>bookIds\<close>, what the confirm-add action
  persists is the one-element sequence of the current book's identifier.
\<close>

theorem confirmAdd_absent_bookIds:
  assumes "selectedListId st \<noteq> []" and "book st = Some b"
    and "find (\<lambda>l. list_id l = selectedListId st) (readingLists st) = Some l"
    and "bookIds l = None"
  shows "backendCalls (handleConfirmAdd res st) =
           backendCalls st @ [UpdateReadingList (selectedListId st) [book_id b] (list_name l)]"
  using handleConfirmAdd_calls [OF assms(1-3), of res] assms(4)
  by (simp add: orNil_def)

text \<open>The same on sample data.\<close>

theorem confirmAdd_absent_bookIds_witness:
  "selectedListId (page0\<lparr>selectedListId := ''l2''\<rparr>) \<noteq> [] \<and>
   book (page0\<lparr>selectedListId := ''l2''\<rparr>) = Some hobbit \<and>
   find (\<lambda>l. list_id l = selectedListId (page0\<lparr>selectedListId := ''l2''\<rparr>))
        (readingLists (page0\<lparr>selectedListId := ''l2''\<rparr>)) = Some wishlist \<and>
   bookIds wishlist = None \<and>
   backendCalls (handleConfirmAdd Rejected (page0\<lparr>selectedListId := ''l2''\<rparr>)) =
     [UpdateReadingList ''l2'' [''b1''] ''Wishlist'']"
proof -
  let ?st = "page0\<lparr>selectedListId := ''l2''\<rparr>"
  have h1: "selectedListId ?st \<noteq> []" by simp
  have h2: "book ?st = Some hobbit" by (simp add: page0_def)
  have h3: "find (\<lambda>l. list_id l = selectedListId ?st) (readingLists ?st) = Some wishlist"
    by (simp add: page0_def favourites_def wishlist_def)
  have h4: "bookIds wishlist = None" by (simp add: wishlist_def)
  from confirmAdd_absent_bookIds [OF h1 h2 h3 h4, of Rejected] h1 h2 h3 h4 show ?thesis
    by (simp add: page0_def wishlist_def hobbit_def backendCalls_def)
qed

lemma clickSubmitReview_new_effects:
  "drop (length (trace st)) (trace (clickSubmitReview res st)) =
     (if submitReviewRendered st \<and> \<not> submitReviewDisabled st \<and> \<not> falsy (userId st)
      then (case book st of None \<Rightarrow> [] | Some b \<Rightarrow>
        [SetIsSubmittingReview True,
         CreateReview (book_id b) (orEmpty (userId st)) (newReviewRating st) (newReviewComment st)] @
        (case res of
           Resolved \<Rightarrow> [ShowSuccess, SetIsReviewModalOpen False, SetNewReview 5 [],
                        LoadReviews (book_id b), SetIsSubmittingReview False]
         | Rejected \<Rightarrow> [HandleApiError, SetIsSubmittingReview False]))
      else [])"
  by (cases res; cases "book st")
     (simp_all add: clickSubmitReview_def handleReviewSubmit_def Let_def emit_def
        setIsSubmittingReview_def setIsReviewModalOpen_def setNewReview_def)

text \<open>
  Claim C3. In every state whose comment field is empty, pressing Submit Review changes
  nothing and calls the backend for nothing; and whatever the state, a \<^verbatim>\<open>createReview\<close>
  call that the press makes carries a comment that is not empty.
\<close>

theorem empty_comment_not_submitted:
  "(newReviewComment st = [] \<longrightarrow>
      clickSubmitReview res st = st \<and>
      backendCalls (clickSubmitReview res st) = backendCalls st) \<and>
   (CreateReview bid uid r c \<in> set (drop (length (trace st)) (trace (clickSubmitReview res st)))
      \<longrightarrow> c \<noteq> [])"
proof
  show "newReviewComment st = [] \<longrightarrow>
      clickSubmitReview res st = st \<and>
      backendCalls (clickSubmitReview res st) = backendCalls st"
    by (simp add: clickSubmitReview_def submitReviewDisabled_def)
  show "CreateReview bid uid r c \<in> set (drop (length (trace st)) (trace (clickSubmitReview res st)))
      \<longrightarrow> c \<noteq> []"
  proof
    assume mem: "CreateReview bid uid r c
      \<in> set (drop (length (trace st)) (trace (clickSubmitReview res st)))"
    show "c \<noteq> []"
    proof (cases "submitReviewRendered st \<and> \<not> submitReviewDisabled st \<and> \<not> falsy (userId st)")
      case True
      then have filled: "newReviewComment st \<noteq> []" by (simp add: submitReviewDisabled_def)
      from True obtain b where b: "book st = Some b"
        by (cases "book st") (simp_all add: submitReviewRendered_def)
      from mem True b have "c = newReviewComment st"
        unfolding clickSubmitReview_new_effects by (cases res) simp_all
      with filled show ?thesis by simp
    next
      case False
      with mem show ?thesis unfolding clickSubmitReview_new_effects by simp
    qed
  qed
qed

text \<open>The same on sample data.\<close>

theorem empty_comment_not_submitted_witness:
  "newReviewComment page0 = [] \<and> clickSubmitReview Resolved page0 = page0 \<and>
   backendCalls (clickSubmitReview Resolved page0) = [] \<and>
   CreateReview ''b1'' ''u1'' 5 ''Superb''
     \<in> set (drop (length (trace (page0\<lparr>newReviewComment := ''Superb''\<rparr>)))
          (trace (clickSubmitReview Resolved (page0\<lparr>newReviewComment := ''Superb''\<rparr>)))) \<and>
   ''Superb'' \<noteq> []"
proof -
  have h1: "newReviewComment page0 = []" by (simp add: page0_def)
  have h2: "CreateReview ''b1'' ''u1'' 5 ''Superb''
     \<in> set (drop (length (trace (page0\<lparr>newReviewComment := ''Superb''\<rparr>)))
          (trace (clickSubmitReview Resolved (page0\<lparr>newReviewComment := ''Superb''\<rparr>))))"
    by (simp add: clickSubmitReview_def submitReviewRendered_def submitReviewDisabled_def
        handleReviewSubmit_def page0_def hobbit_def falsy_def orEmpty_def Let_def
        emit_def setIsSubmittingReview_def setIsReviewModalOpen_def setNewReview_def)
  from empty_comment_not_submitted [of page0 Resolved "''b1''" "''u1''" 5 "''Superb''"]
       empty_comment_not_submitted [of "page0\<lparr>newReviewComment := ''Superb''\<rparr>" Resolved "''b1''" "''u1''" 5 "''Superb''"]
       h1 h2
  show ?thesis by (simp add: page0_def backendCalls_def)
qed

text \<open>
  The handler itself does not look at the comment; the check is the button's.
\<close>

lemma handleReviewSubmit_unguarded:
  "backendCalls (handleReviewSubmit Resolved page0) =
     [CreateReview ''b1'' ''u1'' 5 [], LoadReviews ''b1'']"
  by (simp add: handleReviewSubmit_def page0_def hobbit_def falsy_def orEmpty_def Let_def
      emit_def setIsSubmittingReview_def setIsReviewModalOpen_def setNewReview_def backendCalls_def)

end
